theory Spec2Isabelle
  imports Complex_Main "HOL-Library.AList"
begin

chapter \<open>tea\_diary\_bot: validators, persistence gateway and guided-entry flow\<close>

text \<open>
  A shallow embedding of the parts of the bot that its specification calls the core:
  the decimal validator (\<^verbatim>\<open>app/validators.py\<close>), the persistence gateway
  (\<^verbatim>\<open>app/services/tastings.py\<close>) and the handlers of \<^verbatim>\<open>app/main.py\<close>
  that drive the photo step, the album buffer, the skip callbacks of the full questionnaire
  and the back and cancel navigation of the quick questionnaire.

  Strings are lists of 8-bit characters; text outside ASCII is outside the model, and the
  Russian texts the bot sends are named by constructors instead of being spelled out.
\<close>

section \<open>Python values\<close>

datatype py_error =
    ValueError string
  | InvalidOperation
  | IntegrityError
  | OSError
  | TypeError
  | RuntimeError

text \<open>
  A key of a Python dictionary is missing, holds \<^verbatim>\<open>None\<close>, or holds a value.
  \<^verbatim>\<open>d.get(k)\<close> does not tell the first two apart, \<^verbatim>\<open>d.get(k, default)\<close> does.
\<close>

datatype 'a field = Absent | Null | Val 'a

fun fget :: "'a field \<Rightarrow> 'a option" where
  "fget (Val x) = Some x"
| "fget _ = None"

fun fget_default :: "'a field \<Rightarrow> 'a \<Rightarrow> 'a option" where
  "fget_default Absent d = Some d"
| "fget_default Null d = None"
| "fget_default (Val x) d = Some x"

section \<open>Validators: \<^verbatim>\<open>parse_float\<close>\<close>

text \<open>
  \<^verbatim>\<open>str.strip()\<close> removes the ASCII white space characters
  (codes 9 to 13 and 28 to 32) from both ends.
\<close>

definition is_space :: "char \<Rightarrow> bool" where
  "is_space c = (let n = (of_char c :: nat) in (9 \<le> n \<and> n \<le> 13) \<or> (28 \<le> n \<and> n \<le> 32))"

definition strip :: "string \<Rightarrow> string" where
  "strip s = rev (dropWhile is_space (rev (dropWhile is_space s)))"

definition replace_char :: "char \<Rightarrow> char \<Rightarrow> string \<Rightarrow> string" where
  "replace_char a b s = map (\<lambda>c. if c = a then b else c) s"

definition is_digit :: "char \<Rightarrow> bool" where
  "is_digit c = (let n = (of_char c :: nat) in 48 \<le> n \<and> n \<le> 57)"

definition digit_val :: "char \<Rightarrow> nat" where
  "digit_val c = (of_char c :: nat) - 48"

definition digits_val :: "string \<Rightarrow> nat" where
  "digits_val s = fold (\<lambda>c acc. 10 * acc + digit_val c) s 0"

text \<open>
  A \<^verbatim>\<open>decimal.Decimal\<close>: a finite number is a signed coefficient and an exponent
  (\<open>Finite c e\<close> stands for \<open>c * 10^e\<close>; the sign of a zero is not kept), or it is an
  infinity or a NaN.
\<close>

datatype decimal = Finite int int | Infinity | NaN

definition lower_ascii :: "char \<Rightarrow> char" where
  "lower_ascii c = (let n = (of_char c :: nat) in if 65 \<le> n \<and> n \<le> 90 then char_of (n + 32) else c)"

definition parse_sign :: "string \<Rightarrow> bool \<times> string" where
  "parse_sign s = (case s of
       [] \<Rightarrow> (False, [])
     | c # r \<Rightarrow> if c = CHR ''-'' then (True, r) else if c = CHR ''+'' then (False, r) else (False, s))"

definition parse_exponent :: "string \<Rightarrow> int option" where
  "parse_exponent s = (case parse_sign s of (neg, ds) \<Rightarrow>
       if ds = [] \<or> \<not> list_all is_digit ds then None
       else Some (if neg then - int (digits_val ds) else int (digits_val ds)))"

definition is_nan_text :: "string \<Rightarrow> bool" where
  "is_nan_text s = (let t = (case s of c # r \<Rightarrow> if c = CHR ''s'' then r else s | [] \<Rightarrow> s) in
       take 3 t = ''nan'' \<and> list_all is_digit (drop 3 t))"

text \<open>
  \<^verbatim>\<open>Decimal(text)\<close>: white space at both ends and every underscore are dropped; then an
  optional sign is followed by digits with an optional fraction and an optional exponent
  (at least one digit before the exponent), or by \<^verbatim>\<open>Inf\<close>, \<^verbatim>\<open>Infinity\<close>,
  \<^verbatim>\<open>NaN\<close> or \<^verbatim>\<open>sNaN\<close> in any case. \<open>None\<close> is \<^verbatim>\<open>InvalidOperation\<close>
  raised by the constructor. The constructor is exact: it never rounds.
\<close>

definition Decimal :: "string \<Rightarrow> decimal option" where
  "Decimal raw =
     (case parse_sign (filter (\<lambda>c. c \<noteq> CHR ''_'') (strip raw)) of (neg, body) \<Rightarrow>
        let low = map lower_ascii body in
        if low = ''inf'' \<or> low = ''infinity'' then Some Infinity
        else if is_nan_text low then Some NaN
        else
          let ip = takeWhile is_digit body;
              r1 = dropWhile is_digit body;
              dot = (r1 \<noteq> [] \<and> hd r1 = CHR ''.'');
              fp = (if dot then takeWhile is_digit (tl r1) else []);
              r2 = (if dot then dropWhile is_digit (tl r1) else r1);
              c = int (digits_val (ip @ fp));
              sc = (if neg then - c else c)
          in if ip = [] \<and> fp = [] then None
             else if r2 = [] then Some (Finite sc (- int (length fp)))
             else if lower_ascii (hd r2) = CHR ''e'' then
               (case parse_exponent (tl r2) of
                  None \<Rightarrow> None
                | Some x \<Rightarrow> Some (Finite sc (x - int (length fp))))
             else None)"

text \<open>Numeric comparison of finite decimals, on a common exponent.\<close>

definition scaled :: "int \<Rightarrow> int \<Rightarrow> int \<Rightarrow> int" where
  "scaled m c e = c * 10 ^ nat (e - m)"

fun dec_less :: "decimal \<Rightarrow> decimal \<Rightarrow> bool" where
  "dec_less (Finite c1 e1) (Finite c2 e2) =
     (scaled (min e1 e2) c1 e1 < scaled (min e1 e2) c2 e2)"
| "dec_less _ _ = False"

text \<open>
  \<^verbatim>\<open>value.quantize(quant, rounding=ROUND_HALF_UP)\<close> under the default context
  (28 digits): the result has the exponent of \<^verbatim>\<open>quant\<close>, ties go away from zero, and
  a result of more than 28 digits or an infinite operand raises \<^verbatim>\<open>InvalidOperation\<close>.
  A NaN passes through and makes the comparison that follows raise.
\<close>

definition context_prec :: nat where
  "context_prec = 28"

definition round_half_up :: "int \<Rightarrow> nat \<Rightarrow> int" where
  "round_half_up c k =
     (let q = \<bar>c\<bar> div 10 ^ k; r = \<bar>c\<bar> mod 10 ^ k;
          a = (if 2 * r \<ge> 10 ^ k then q + 1 else q)
      in if c < 0 then - a else a)"

fun quantize :: "decimal \<Rightarrow> int \<Rightarrow> py_error + decimal" where
  "quantize (Finite c e) t =
     (let c' = (if t \<le> e then c * 10 ^ nat (e - t) else round_half_up c (nat (t - e)))
      in if \<bar>c'\<bar> \<ge> 10 ^ context_prec then Inl InvalidOperation else Inr (Finite c' t))"
| "quantize Infinity t = Inl InvalidOperation"
| "quantize NaN t = Inr NaN"

text \<open>
  \<^verbatim>\<open>Decimal(10) ** -precision\<close> has exponent \<open>-precision\<close> for a positive precision
  and exponent 0 otherwise (\<^verbatim>\<open>Decimal(10) ** 2\<close> is \<^verbatim>\<open>Decimal('100')\<close>).
\<close>

definition quant_exponent :: "int \<Rightarrow> int" where
  "quant_exponent precision = (if 0 < precision then - precision else 0)"

text \<open>
  \<^verbatim>\<open>parse_float\<close>. The bounds are given as the decimals \<^verbatim>\<open>Decimal(str(min_value))\<close>
  and \<^verbatim>\<open>Decimal(str(max_value))\<close>; the result stands for \<^verbatim>\<open>float(value)\<close>, whose
  rounding to a binary double is not modelled.
\<close>

definition parse_float :: "string \<Rightarrow> decimal \<Rightarrow> decimal \<Rightarrow> string \<Rightarrow> int \<Rightarrow> py_error + decimal" where
  "parse_float raw min_value max_value error_message precision =
     (let text = replace_char (CHR '','') (CHR ''.'') (strip raw) in
      if text = [] then Inl (ValueError error_message)
      else case Decimal text of
        None \<Rightarrow> Inl (ValueError error_message)
      | Some v \<Rightarrow>
          (case quantize v (quant_exponent precision) of
             Inl e \<Rightarrow> Inl e
           | Inr NaN \<Rightarrow> Inl InvalidOperation
           | Inr Infinity \<Rightarrow> Inl InvalidOperation
           | Inr q \<Rightarrow>
               if dec_less q min_value \<or> dec_less max_value q
               then Inl (ValueError error_message)
               else Inr q))"

text \<open>\<^verbatim>\<open>parse_grams_value\<close> of \<^verbatim>\<open>main.py\<close>: from 0.1 to 50.0 at precision 1.\<close>

definition parse_grams_value :: "string \<Rightarrow> py_error + decimal" where
  "parse_grams_value raw = parse_float raw (Finite 1 (-1)) (Finite 500 (-1)) ''GRAMS_ERROR'' 1"

section \<open>Persistence gateway: \<^verbatim>\<open>create_tasting\<close>\<close>

text \<open>
  The dictionary \<^verbatim>\<open>tasting_data\<close> that the finalize handlers build, one field per key
  (\<open>None\<close> for \<^verbatim>\<open>None\<close> or, for \<open>td_aroma_after\<close> in the quick variant, a missing key).
\<close>

record tasting_data =
  td_user_id :: "int option"
  td_name :: "string option"
  td_year :: "int option"
  td_region :: "string option"
  td_category :: "string option"
  td_grams :: "decimal option"
  td_temp_c :: "int option"
  td_tasted_at :: "string option"
  td_gear :: "string option"
  td_aroma_dry :: "string option"
  td_aroma_warmed :: "string option"
  td_aroma_after :: "string option"
  td_effects_csv :: "string option"
  td_scenarios_csv :: "string option"
  td_rating :: "int option"
  td_summary :: "string option"

record infusion_dict =
  inf_n :: "int option"
  inf_seconds :: "int option"
  inf_liquor_color :: "string option"
  inf_taste :: "string option"
  inf_special_notes :: "string option"
  inf_body :: "string option"
  inf_aftertaste :: "string option"

text \<open>A photo entry is a \<^verbatim>\<open>PhotoDraft\<close> dictionary, a bare file id, or anything else.\<close>

record photo_draft =
  pd_body :: "string option"
  pd_filename_hint :: "string option"
  pd_filename :: "string option"
  pd_telegram_file_id :: "string option"
  pd_telegram_file_unique_id :: "string option"

datatype photo_entry = PhotoStr string | PhotoDict photo_draft | PhotoOther

text \<open>The tables of \<^verbatim>\<open>app/db/models.py\<close>.\<close>

record tasting_row =
  t_id :: int
  t_seq_no :: int
  t_data :: tasting_data

record infusion_row =
  i_tasting_id :: int
  i_data :: infusion_dict

record photo_row =
  p_tasting_id :: int
  p_file_id :: string
  p_storage_backend :: string
  p_object_key :: "string option"
  p_content_type :: "string option"
  p_size_bytes :: "int option"
  p_telegram_file_id :: "string option"
  p_telegram_file_unique_id :: "string option"

record store =
  tastings :: "tasting_row list"
  infusion_rows :: "infusion_row list"
  photo_rows :: "photo_row list"

record save_result =
  sr_storage_backend :: string
  sr_object_key :: "string option"
  sr_content_type :: "string option"
  sr_size_bytes :: int

text \<open>
  The collaborators the code calls, as an environment:
  \<^item> \<open>rivals\<close>: for the k-th attempt of a \<^verbatim>\<open>create_tasting\<close> call, the creations of
    other sessions that commit after this attempt has read the maximum and before it inserts;
  \<^item> \<open>save_photo_bytes\<close>: the blob store (\<open>None\<close> when it raises);
  \<^item> \<open>get_file\<close>: \<^verbatim>\<open>bot.get_file(file_id)\<close>, giving the file path (\<open>None\<close> when it raises);
  \<^item> \<open>download_file\<close>: \<^verbatim>\<open>bot.download_file(file_path, buffer)\<close>, giving the bytes
    (\<open>None\<close> when it raises);
  \<^item> \<open>MAX_PHOTOS\<close>: the configured cap, \<^verbatim>\<open>max(1, int(os.getenv("PHOTO_LIMIT", "3")))\<close>.
\<close>

record env =
  rivals :: "tasting_data list list"
  save_photo_bytes :: "int option \<Rightarrow> int \<Rightarrow> string \<Rightarrow> string \<Rightarrow> save_result option"
  get_file :: "string \<Rightarrow> string option"
  download_file :: "string \<Rightarrow> string option"
  MAX_PHOTOS :: nat

definition MAX_CREATE_ATTEMPTS :: nat where
  "MAX_CREATE_ATTEMPTS = 2"

definition user_seqs :: "store \<Rightarrow> int option \<Rightarrow> int list" where
  "user_seqs s uid = map t_seq_no (filter (\<lambda>r. td_user_id (t_data r) = uid) (tastings s))"

text \<open>
  \<^verbatim>\<open>_next_seq_for_user\<close>: the first row of the user's \<^verbatim>\<open>seq_no\<close> in descending order,
  if any, then \<^verbatim>\<open>(last_seq or 0) + 1\<close>.
\<close>

definition next_seq_for_user :: "store \<Rightarrow> int option \<Rightarrow> int" where
  "next_seq_for_user s uid =
     (let last_seq = (case user_seqs s uid of [] \<Rightarrow> None | x # xs \<Rightarrow> Some (fold max xs x))
      in (case last_seq of None \<Rightarrow> 0 | Some m \<Rightarrow> if m = 0 then 0 else m) + 1)"

definition user_seq_keys :: "store \<Rightarrow> (int option \<times> int) list" where
  "user_seq_keys s = map (\<lambda>r. (td_user_id (t_data r), t_seq_no r)) (tastings s)"

text \<open>
  \<^verbatim>\<open>session.add(tasting); session.flush()\<close>: the insert fails with \<^verbatim>\<open>IntegrityError\<close>
  on a \<^verbatim>\<open>NULL\<close> in a column declared \<^verbatim>\<open>nullable=False\<close> without a default
  (\<^verbatim>\<open>user_id\<close>, \<^verbatim>\<open>name\<close>, \<^verbatim>\<open>category\<close>) and on a pair already in the unique index
  \<^verbatim>\<open>ux_tastings_user_seq\<close>.
\<close>

definition flush_insert :: "store \<Rightarrow> int \<Rightarrow> tasting_data \<Rightarrow> py_error + (store \<times> tasting_row)" where
  "flush_insert s seq_no td =
     (if td_user_id td = None \<or> td_name td = None \<or> td_category td = None
      then Inl IntegrityError
      else if (td_user_id td, seq_no) \<in> set (user_seq_keys s) then Inl IntegrityError
      else let t = \<lparr>t_id = int (length (tastings s)) + 1, t_seq_no = seq_no, t_data = td\<rparr>
           in Inr (s\<lparr>tastings := tastings s @ [t]\<rparr>, t))"

definition add_infusions :: "int \<Rightarrow> infusion_dict list \<Rightarrow> store \<Rightarrow> store" where
  "add_infusions tid infs s =
     s\<lparr>infusion_rows := infusion_rows s @ map (\<lambda>i. \<lparr>i_tasting_id = tid, i_data = i\<rparr>) infs\<rparr>"

definition str_or :: "string option \<Rightarrow> string option \<Rightarrow> string option" where
  "str_or a b = (case a of Some (c # cs) \<Rightarrow> a | _ \<Rightarrow> b)"

fun add_photos :: "env \<Rightarrow> int option \<Rightarrow> int \<Rightarrow> photo_entry list \<Rightarrow> store \<Rightarrow> py_error + store" where
  "add_photos E uid tid [] s = Inr s"
| "add_photos E uid tid (PhotoStr f # ps) s =
     add_photos E uid tid ps
       (s\<lparr>photo_rows := photo_rows s @
          [\<lparr>p_tasting_id = tid, p_file_id = f, p_storage_backend = ''local'',
            p_object_key = None, p_content_type = None, p_size_bytes = None,
            p_telegram_file_id = Some f, p_telegram_file_unique_id = None\<rparr>]\<rparr>)"
| "add_photos E uid tid (PhotoOther # ps) s = add_photos E uid tid ps s"
| "add_photos E uid tid (PhotoDict d # ps) s =
     (case (pd_body d, pd_telegram_file_id d) of
        (Some b, Some f) \<Rightarrow>
          (case save_photo_bytes E uid tid b
                  (case str_or (str_or (pd_filename_hint d) (pd_filename d)) (Some ''photo.jpg'') of
                     Some h \<Rightarrow> h | None \<Rightarrow> ''photo.jpg'') of
             None \<Rightarrow> Inl OSError
           | Some r \<Rightarrow>
               add_photos E uid tid ps
                 (s\<lparr>photo_rows := photo_rows s @
                    [\<lparr>p_tasting_id = tid, p_file_id = f,
                      p_storage_backend = sr_storage_backend r,
                      p_object_key = sr_object_key r,
                      p_content_type = sr_content_type r,
                      p_size_bytes = Some (sr_size_bytes r),
                      p_telegram_file_id = Some f,
                      p_telegram_file_unique_id = pd_telegram_file_unique_id d\<rparr>]\<rparr>))
      | _ \<Rightarrow> add_photos E uid tid ps s)"

text \<open>
  What another session's creation leaves in the store when it commits on its own:
  it reads the maximum and inserts, and leaves the store alone when its insert fails.
\<close>

definition rival_commit :: "tasting_data \<Rightarrow> store \<Rightarrow> store" where
  "rival_commit td s =
     (case flush_insert s (next_seq_for_user s (td_user_id td)) td of
        Inl e \<Rightarrow> s
      | Inr (s', t) \<Rightarrow> s')"

definition rivals_at :: "env \<Rightarrow> nat \<Rightarrow> tasting_data list" where
  "rivals_at E k = (if 0 < k \<and> k \<le> length (rivals E) then rivals E ! (k - 1) else [])"

text \<open>
  One pass of the loop body of \<^verbatim>\<open>create_tasting\<close>, a transaction: the sequence number is
  read, the other sessions of this attempt commit, the tasting is inserted and flushed, the
  infusions and photos are added, and all of it commits. When anything raises, the
  transaction is rolled back and the store holds what the other sessions committed.
\<close>

definition attempt_tx ::
  "env \<Rightarrow> nat \<Rightarrow> store \<Rightarrow> tasting_data \<Rightarrow> infusion_dict list \<Rightarrow> photo_entry list
     \<Rightarrow> (py_error + tasting_row) \<times> store" where
  "attempt_tx E k s td infs photos =
     (let seq_no = next_seq_for_user s (td_user_id td);
          s1 = fold rival_commit (rivals_at E k) s
      in case flush_insert s1 seq_no td of
           Inl e \<Rightarrow> (Inl e, s1)
         | Inr (s2, t) \<Rightarrow>
             (case add_photos E (td_user_id td) (t_id t) photos (add_infusions (t_id t) infs s2) of
                Inl e \<Rightarrow> (Inl e, s1)
              | Inr s3 \<Rightarrow> (Inr t, s3)))"

text \<open>
  The \<^verbatim>\<open>while attempts < _MAX_CREATE_ATTEMPTS\<close> loop. The result is what the call returns
  or raises, the store afterwards, and the final value of \<^verbatim>\<open>attempts\<close>.
\<close>

function create_loop ::
  "env \<Rightarrow> nat \<Rightarrow> store \<Rightarrow> tasting_data \<Rightarrow> infusion_dict list \<Rightarrow> photo_entry list
     \<Rightarrow> (py_error + tasting_row) \<times> store \<times> nat" where
  "create_loop E attempts s td infs photos =
     (if attempts < MAX_CREATE_ATTEMPTS then
        (case attempt_tx E (attempts + 1) s td infs photos of
           (Inr t, s') \<Rightarrow> (Inr t, s', attempts + 1)
         | (Inl IntegrityError, s') \<Rightarrow>
             if attempts + 1 \<ge> MAX_CREATE_ATTEMPTS then (Inl IntegrityError, s', attempts + 1)
             else create_loop E (attempts + 1) s' td infs photos
         | (Inl e, s') \<Rightarrow> (Inl e, s', attempts + 1))
      else (Inl RuntimeError, s, attempts))"
  by pat_completeness auto
termination
  by (relation "measure (\<lambda>(E, attempts, s, td, infs, photos). MAX_CREATE_ATTEMPTS - attempts)") auto

declare create_loop.simps [simp del]

definition create_tasting ::
  "env \<Rightarrow> store \<Rightarrow> tasting_data \<Rightarrow> infusion_dict list \<Rightarrow> photo_entry list
     \<Rightarrow> (py_error + tasting_row) \<times> store \<times> nat" where
  "create_tasting E s td infs photos = create_loop E 0 s td infs photos"

text \<open>The unique index as a predicate on the store.\<close>

definition unique_user_seq :: "store \<Rightarrow> bool" where
  "unique_user_seq s = distinct (user_seq_keys s)"

section \<open>Conversation state of \<^verbatim>\<open>app/main.py\<close>\<close>

text \<open>The states of the \<^verbatim>\<open>StatesGroup\<close> classes, named \<open>Group_state\<close>.\<close>

datatype fsm_state =
    NewTasting_name | NewTasting_year | NewTasting_region | NewTasting_category
  | NewTasting_grams | NewTasting_temp_c | NewTasting_tasted_at | NewTasting_gear
  | NewTasting_aroma_dry | NewTasting_aroma_warmed
  | InfusionState_seconds | InfusionState_color | InfusionState_taste
  | InfusionState_special | InfusionState_body | InfusionState_aftertaste
  | EffectsScenarios_effects | EffectsScenarios_scenarios
  | RatingSummary_rating | RatingSummary_summary
  | PhotoFlow_photos
  | SearchFlow_name | SearchFlow_category | SearchFlow_year
  | EditFlow_choosing | EditFlow_waiting_text
  | QuickNote_name | QuickNote_type_pick | QuickNote_type_custom | QuickNote_grams
  | QuickNote_temp_pick | QuickNote_gear_pick | QuickNote_gear_custom | QuickNote_aroma
  | QuickNote_taste | QuickNote_eff_pick | QuickNote_eff_custom | QuickNote_rating
  | QuickNote_note | QuickNote_photos
  | QuickCancel_confirm
  | QuickEditFlow_choosing | QuickEditFlow_waiting_text

text \<open>
  The dictionary behind \<^verbatim>\<open>state.get_data()\<close>: the draft. One field for each key that the
  modelled handlers read or write. A key that the source sets to \<^verbatim>\<open>None\<close> somewhere is a
  \<open>field\<close>; a key that it only ever sets to a value is an \<open>option\<close>, \<open>None\<close> for a
  missing key.
\<close>

record fsm_data =
  user_id :: "int option"
  flow_kind :: "string option"
  name :: "string field"
  year :: "int field"
  region :: "string field"
  category :: "string field"
  grams :: "decimal field"
  temp_c :: "int field"
  tasted_at :: "string field"
  gear :: "string field"
  aroma_dry :: "string field"
  aroma_warmed :: "string field"
  aroma_after :: "string field"
  effects :: "string list option"
  scenarios :: "string list option"
  rating :: "int field"
  summary :: "string field"
  infusions :: "infusion_dict list option"
  new_photos :: "photo_entry list option"
  photo_count :: "int option"
  photo_limit :: "int option"
  progress_msg_id :: "int field"
  live_q_id :: "int field"
  numpad_active :: "bool option"
  cancel_return_state :: "fsm_state option"
  aroma_dry_sel :: "string list option"
  cur_seconds :: "int field"
  cur_color :: "string field"
  cur_taste_sel :: "string list option"
  cur_special :: "string field"

definition empty_data :: fsm_data where
  "empty_data =
     \<lparr>user_id = None, flow_kind = None, name = Absent, year = Absent, region = Absent,
      category = Absent, grams = Absent, temp_c = Absent, tasted_at = Absent, gear = Absent,
      aroma_dry = Absent, aroma_warmed = Absent, aroma_after = Absent, effects = None,
      scenarios = None, rating = Absent, summary = Absent, infusions = None,
      new_photos = None, photo_count = None, photo_limit = None, progress_msg_id = Absent,
      live_q_id = Absent, numpad_active = None, cancel_return_state = None,
      aroma_dry_sel = None, cur_seconds = Absent, cur_color = Absent, cur_taste_sel = None,
      cur_special = Absent\<rparr>"

record session =
  fsm :: "fsm_state option"
  data :: fsm_data

text \<open>
  What the bot sends, by what it is rather than by its Russian text: the question of a step
  with its keyboard, the photo counter, the notices of the photo step.
\<close>

datatype prompt =
    Ask fsm_state
  | PhotoStatus int int
  | MaxPhotos int int
  | GetFileFailed
  | DownloadFailed

datatype answer =
    NoText
  | Skipped
  | CannotFinishPhotos
  | NeedPhotoOrSkip
  | PhotosPresent

text \<open>
  The calls to the collaborators, in order: messages sent to a chat (with the message id
  the transport gives them), deletions and edits, answers to a callback, and the calls of
  the persistence gateway with their arguments.
\<close>

datatype event =
    SendMessage int int prompt
  | DeleteMessage int int
  | ClearMarkup int int
  | CloseInline int
  | CallAnswer int answer
  | ShowMainMenu int
  | SendCard int int
  | CreateTasting tasting_data "infusion_dict list" "photo_entry list"

text \<open>The album buffer and the timer tasks of \<^verbatim>\<open>_album_timeout_handler\<close>.\<close>

record file_entry =
  fe_file_id :: string
  fe_file_unique_id :: string

datatype task_status = Sleeping | Cancelled | Finished

record task =
  task_key :: "int \<times> string"
  deadline :: nat
  status :: task_status

record album_entry =
  files :: "file_entry list"
  e_message :: int
  e_state :: int
  e_task :: "nat option"

text \<open>
  The whole bot: the FSM storage keyed by user (chats are private, so the chat id is the
  user id), the global \<^verbatim>\<open>ALBUM_BUFFER\<close> in insertion order, the timer tasks with a clock in
  milliseconds, the relational store, the log of collaborator calls and the transport's
  next message id. A handler runs to its end before the next event is looked at.
\<close>

record world =
  sessions :: "int \<Rightarrow> session"
  ALBUM_BUFFER :: "((int \<times> string) \<times> album_entry) list"
  tasks :: "task list"
  now :: nat
  db :: store
  log :: "event list"
  next_message_id :: int

definition ALBUM_TIMEOUT :: nat where
  "ALBUM_TIMEOUT = 2000"

definition get_state :: "world \<Rightarrow> int \<Rightarrow> fsm_state option" where
  "get_state w uid = fsm (sessions w uid)"

definition get_data :: "world \<Rightarrow> int \<Rightarrow> fsm_data" where
  "get_data w uid = data (sessions w uid)"

definition set_state :: "int \<Rightarrow> fsm_state option \<Rightarrow> world \<Rightarrow> world" where
  "set_state uid st w = w\<lparr>sessions := (sessions w)(uid := (sessions w uid)\<lparr>fsm := st\<rparr>)\<rparr>"

definition update_data :: "int \<Rightarrow> (fsm_data \<Rightarrow> fsm_data) \<Rightarrow> world \<Rightarrow> world" where
  "update_data uid f w =
     w\<lparr>sessions := (sessions w)(uid := (sessions w uid)\<lparr>data := f (data (sessions w uid))\<rparr>)\<rparr>"

definition clear_state :: "int \<Rightarrow> world \<Rightarrow> world" where
  "clear_state uid w = w\<lparr>sessions := (sessions w)(uid := \<lparr>fsm = None, data = empty_data\<rparr>)\<rparr>"

definition emit :: "event \<Rightarrow> world \<Rightarrow> world" where
  "emit e w = w\<lparr>log := log w @ [e]\<rparr>"

text \<open>\<^verbatim>\<open>message.answer(text, reply_markup=...)\<close>: the message id and the world after.\<close>

definition answer_message :: "int \<Rightarrow> prompt \<Rightarrow> world \<Rightarrow> int \<times> world" where
  "answer_message chat p w =
     (next_message_id w,
      w\<lparr>log := log w @ [SendMessage chat (next_message_id w) p],
        next_message_id := next_message_id w + 1\<rparr>)"

definition truthy_id :: "int field \<Rightarrow> int option" where
  "truthy_id f = (case f of Val n \<Rightarrow> if n = 0 then None else Some n | _ \<Rightarrow> None)"

definition ask_next :: "int \<Rightarrow> prompt \<Rightarrow> world \<Rightarrow> world" where
  "ask_next uid p w =
     (let w1 = (case truthy_id (live_q_id (get_data w uid)) of
                  Some prev \<Rightarrow> emit (ClearMarkup uid prev) w
                | None \<Rightarrow> w)
      in case answer_message uid p w1 of
           (mid, w2) \<Rightarrow> update_data uid (\<lambda>d. d\<lparr>live_q_id := Val mid\<rparr>) w2)"

definition close_inline :: "int \<Rightarrow> world \<Rightarrow> world" where
  "close_inline uid w = emit (CloseInline uid) w"

definition update_photo_progress :: "int \<Rightarrow> int \<Rightarrow> int \<Rightarrow> int \<Rightarrow> world \<Rightarrow> world" where
  "update_photo_progress chat st count limit w =
     (let w1 = (case truthy_id (progress_msg_id (get_data w st)) of
                  Some p \<Rightarrow> emit (DeleteMessage chat p) w
                | None \<Rightarrow> w)
      in case answer_message chat (PhotoStatus count limit) w1 of
           (mid, w2) \<Rightarrow>
             update_data st (\<lambda>d. d\<lparr>progress_msg_id := Val mid, photo_count := Some count,
                                     photo_limit := Some limit\<rparr>) w2)"

definition clear_photo_progress :: "int \<Rightarrow> int \<Rightarrow> world \<Rightarrow> world" where
  "clear_photo_progress chat st w =
     (let w1 = (case truthy_id (progress_msg_id (get_data w st)) of
                  Some p \<Rightarrow> emit (DeleteMessage chat p) w
                | None \<Rightarrow> w)
      in update_data st (\<lambda>d. d\<lparr>progress_msg_id := Null\<rparr>) w1)"

text \<open>\<^verbatim>\<open>list(data.get("new_photos", []) or [])\<close>.\<close>

definition photos_of :: "fsm_data \<Rightarrow> photo_entry list" where
  "photos_of d = (case new_photos d of Some ps \<Rightarrow> ps | None \<Rightarrow> [])"

section \<open>Album buffer and photo step\<close>

definition basename :: "string \<Rightarrow> string" where
  "basename path = rev (takeWhile (\<lambda>c. c \<noteq> CHR ''/'') (rev path))"

text \<open>
  \<^verbatim>\<open>_store_photo_from_file_id\<close>: whether the photo was stored, the list \<^verbatim>\<open>photos\<close> (which
  the source appends to in place) and the world after.
\<close>

definition photo_draft_of :: "string \<Rightarrow> string \<Rightarrow> string \<Rightarrow> string \<Rightarrow> photo_entry" where
  "photo_draft_of fid fuid file_path body =
     PhotoDict \<lparr>pd_body = Some body,
       pd_filename_hint =
         Some (if basename file_path = [] then ''photo.jpg'' else basename file_path),
       pd_filename = None,
       pd_telegram_file_id = Some fid,
       pd_telegram_file_unique_id = Some (if fuid = [] then fid else fuid)\<rparr>"

definition store_photo_from_file_id ::
  "env \<Rightarrow> int \<Rightarrow> int \<Rightarrow> string \<Rightarrow> photo_entry list \<Rightarrow> string \<Rightarrow> world
     \<Rightarrow> bool \<times> photo_entry list \<times> world" where
  "store_photo_from_file_id E chat st fid photos fuid w =
     (case get_file E fid of
        None \<Rightarrow> (False, photos, snd (answer_message chat GetFileFailed w))
      | Some file_path \<Rightarrow>
          (case download_file E file_path of
             None \<Rightarrow> (False, photos, snd (answer_message chat DownloadFailed w))
           | Some body \<Rightarrow>
               let photos' = photos @ [photo_draft_of fid fuid file_path body]
               in (True, photos', update_data st (\<lambda>d. d\<lparr>new_photos := Some photos'\<rparr>) w)))"

text \<open>The loop \<^verbatim>\<open>for file_entry in accepted\<close> of \<^verbatim>\<open>_process_album_entry\<close>.\<close>

fun store_accepted ::
  "env \<Rightarrow> int \<Rightarrow> int \<Rightarrow> file_entry list \<Rightarrow> photo_entry list \<Rightarrow> bool \<Rightarrow> world
     \<Rightarrow> bool \<times> photo_entry list \<times> world" where
  "store_accepted E chat st [] photos saved_any w = (saved_any, photos, w)"
| "store_accepted E chat st (f # fs) photos saved_any w =
     (if fe_file_id f = [] then store_accepted E chat st fs photos saved_any w
      else case store_photo_from_file_id E chat st (fe_file_id f) photos (fe_file_unique_id f) w of
             (ok, photos', w') \<Rightarrow> store_accepted E chat st fs photos' (saved_any \<or> ok) w')"

text \<open>\<^verbatim>\<open>int(data.get("photo_limit", MAX_PHOTOS))\<close>.\<close>

definition photo_limit_of :: "env \<Rightarrow> fsm_data \<Rightarrow> int" where
  "photo_limit_of E d = (case photo_limit d of Some l \<Rightarrow> l | None \<Rightarrow> int (MAX_PHOTOS E))"

definition process_album_entry :: "env \<Rightarrow> album_entry \<Rightarrow> world \<Rightarrow> world" where
  "process_album_entry E entry w =
     (if files entry = [] then w
      else
        let d = get_data w (e_state entry);
            photos = photos_of d;
            limit = photo_limit_of E d;
            capacity = limit - int (length photos)
        in if capacity \<le> 0
           then update_photo_progress (e_message entry) (e_state entry) (int (length photos)) limit w
           else
             let accepted = take (nat capacity) (files entry);
                 extra = int (length (files entry)) - int (length accepted)
             in case store_accepted E (e_message entry) (e_state entry) accepted photos False w of
                  (saved_any, photos', w1) \<Rightarrow>
                    if \<not> saved_any then w1
                    else
                      let w2 = update_photo_progress (e_message entry) (e_state entry)
                                 (int (length photos')) limit w1
                      in if 0 < extra
                         then snd (answer_message (e_message entry)
                                     (MaxPhotos (int (length photos')) limit) w2)
                         else w2)"

text \<open>\<^verbatim>\<open>if task and not task.done(): task.cancel()\<close>.\<close>

definition cancel_task :: "nat option \<Rightarrow> world \<Rightarrow> world" where
  "cancel_task t w =
     (case t of
        None \<Rightarrow> w
      | Some i \<Rightarrow>
          if i < length (tasks w) \<and> status (tasks w ! i) = Sleeping
          then w\<lparr>tasks := (tasks w)[i := (tasks w ! i)\<lparr>status := Cancelled\<rparr>]\<rparr>
          else w)"

text \<open>One pass of the loop \<^verbatim>\<open>for key in keys\<close> of \<^verbatim>\<open>flush_user_albums\<close>.\<close>

definition flush_key :: "env \<Rightarrow> int \<Rightarrow> bool \<Rightarrow> int \<times> string \<Rightarrow> world \<Rightarrow> world" where
  "flush_key E st process key w =
     (case map_of (ALBUM_BUFFER w) key of
        None \<Rightarrow> w
      | Some entry \<Rightarrow>
          let w1 = cancel_task (e_task entry)
                     (w\<lparr>ALBUM_BUFFER := AList.delete key (ALBUM_BUFFER w)\<rparr>)
          in if \<not> process then w1
             else process_album_entry E (entry\<lparr>e_state := st\<rparr>) w1)"

definition flush_user_albums :: "env \<Rightarrow> int option \<Rightarrow> int \<Rightarrow> bool \<Rightarrow> world \<Rightarrow> world" where
  "flush_user_albums E uid st process w =
     (case uid of
        None \<Rightarrow> w
      | Some u \<Rightarrow>
          fold (flush_key E st process)
            (filter (\<lambda>key. fst key = u) (map fst (ALBUM_BUFFER w))) w)"

text \<open>
  \<^verbatim>\<open>_album_timeout_handler\<close> once its \<^verbatim>\<open>asyncio.sleep(ALBUM_TIMEOUT)\<close> is over: a cancelled
  task has returned from the sleep with \<^verbatim>\<open>CancelledError\<close> and does nothing.
\<close>

definition album_timeout_handler :: "env \<Rightarrow> nat \<Rightarrow> world \<Rightarrow> world" where
  "album_timeout_handler E i w =
     (if i < length (tasks w) \<and> status (tasks w ! i) = Sleeping
      then
        let key = task_key (tasks w ! i);
            w1 = w\<lparr>tasks := (tasks w)[i := (tasks w ! i)\<lparr>status := Finished\<rparr>]\<rparr>
        in case map_of (ALBUM_BUFFER w1) key of
             None \<Rightarrow> w1
           | Some entry \<Rightarrow>
               process_album_entry E entry
                 (w1\<lparr>ALBUM_BUFFER := AList.delete key (ALBUM_BUFFER w1)\<rparr>)
      else w)"

text \<open>
  The clock moves to \<open>t\<close>: every task whose sleep ends by then wakes, the oldest first
  (all deadlines are a creation time plus the same delay).
\<close>

definition run_timers :: "env \<Rightarrow> nat \<Rightarrow> world \<Rightarrow> world" where
  "run_timers E t w =
     (fold (album_timeout_handler E)
        (filter (\<lambda>i. status (tasks w ! i) = Sleeping \<and> deadline (tasks w ! i) \<le> t)
           [0 ..< length (tasks w)]) w)
     \<lparr>now := max (now w) t\<rparr>"

text \<open>A photo message: its sender, its \<^verbatim>\<open>media_group_id\<close> and its largest photo size.\<close>

record photo_message =
  from_user :: int
  media_group_id :: "string option"
  photo_file_id :: string
  photo_file_unique_id :: string

definition photo_add :: "env \<Rightarrow> photo_message \<Rightarrow> world \<Rightarrow> world" where
  "photo_add E m w =
     (let uid0 = from_user m; d = get_data w uid0 in
      case photo_limit d of
        None \<Rightarrow> w
      | Some limit \<Rightarrow>
          let photos = photos_of d in
          if limit \<le> int (length photos)
          then snd (answer_message uid0 (MaxPhotos (int (length photos)) limit)
                      (update_photo_progress uid0 uid0 (int (length photos)) limit w))
          else
            let uid = (case user_id d of Some u \<Rightarrow> if u = 0 then uid0 else u | None \<Rightarrow> uid0);
                fe = \<lparr>fe_file_id = photo_file_id m, fe_file_unique_id = photo_file_unique_id m\<rparr>
            in case (case media_group_id m of Some (c # cs) \<Rightarrow> Some (c # cs) | _ \<Rightarrow> None) of
                 Some g \<Rightarrow>
                   let key = (uid, g);
                       entry = (case map_of (ALBUM_BUFFER w) key of
                                  Some e \<Rightarrow> e
                                | None \<Rightarrow> \<lparr>files = [], e_message = uid0, e_state = uid0,
                                            e_task = None\<rparr>);
                       w1 = cancel_task (e_task entry) w
                   in w1\<lparr>ALBUM_BUFFER :=
                          AList.update key
                            (entry\<lparr>files := files entry @ [fe], e_message := uid0,
                                    e_state := uid0, e_task := Some (length (tasks w1))\<rparr>)
                            (ALBUM_BUFFER w1),
                        tasks := tasks w1 @
                          [\<lparr>task_key = key, deadline = now w1 + ALBUM_TIMEOUT,
                            status = Sleeping\<rparr>]\<rparr>
               | None \<Rightarrow>
                   (case store_photo_from_file_id E uid0 uid0 (photo_file_id m) photos
                           (photo_file_unique_id m) w of
                      (ok, photos', w') \<Rightarrow>
                        if ok then update_photo_progress uid0 uid0 (int (length photos')) limit w'
                        else w'))"

text \<open>A photo message that arrives at time \<open>t\<close>.\<close>

definition photo_at :: "env \<Rightarrow> nat \<Rightarrow> photo_message \<Rightarrow> world \<Rightarrow> world" where
  "photo_at E t m w = photo_add E m (run_timers E t w)"

section \<open>Finalize\<close>

fun join :: "string \<Rightarrow> string list \<Rightarrow> string" where
  "join sep [] = []"
| "join sep [x] = x"
| "join sep (x # y # ys) = x @ sep @ join sep (y # ys)"

text \<open>\<^verbatim>\<open>",".join(data.get(key, [])) or None\<close>.\<close>

definition csv_or_none :: "string list option \<Rightarrow> string option" where
  "csv_or_none xs =
     (let text = join '','' (case xs of Some l \<Rightarrow> l | None \<Rightarrow> [])
      in if text = [] then None else Some text)"

definition nonempty :: "string option \<Rightarrow> string option" where
  "nonempty a = (case a of Some (c # cs) \<Rightarrow> a | _ \<Rightarrow> None)"

text \<open>The label \<^verbatim>\<open>QUICK_CATEGORY_FALLBACK\<close>, transliterated.\<close>

definition QUICK_CATEGORY_FALLBACK :: string where
  "QUICK_CATEGORY_FALLBACK = ''Drugoe''"

definition full_tasting_data :: "fsm_data \<Rightarrow> tasting_data" where
  "full_tasting_data d =
     \<lparr>td_user_id = user_id d, td_name = fget (name d), td_year = fget (year d),
      td_region = fget (region d), td_category = fget (category d),
      td_grams = fget (grams d), td_temp_c = fget (temp_c d),
      td_tasted_at = fget (tasted_at d), td_gear = fget (gear d),
      td_aroma_dry = fget (aroma_dry d), td_aroma_warmed = fget (aroma_warmed d),
      td_aroma_after = fget (aroma_after d),
      td_effects_csv = csv_or_none (effects d),
      td_scenarios_csv = csv_or_none (scenarios d),
      td_rating = fget_default (rating d) 0,
      td_summary = nonempty (fget (summary d))\<rparr>"

definition quick_tasting_data :: "fsm_data \<Rightarrow> tasting_data" where
  "quick_tasting_data d =
     \<lparr>td_user_id = user_id d, td_name = fget (name d), td_year = None,
      td_region = None,
      td_category = str_or (fget (category d)) (Some QUICK_CATEGORY_FALLBACK),
      td_grams = fget (grams d), td_temp_c = fget (temp_c d),
      td_tasted_at = None, td_gear = fget (gear d),
      td_aroma_dry = fget (aroma_dry d), td_aroma_warmed = fget (aroma_warmed d),
      td_aroma_after = None,
      td_effects_csv = csv_or_none (effects d),
      td_scenarios_csv = None,
      td_rating = fget (rating d),
      td_summary = fget (summary d)\<rparr>"

text \<open>
  The common shape of \<^verbatim>\<open>finalize_save\<close> and \<^verbatim>\<open>finalize_quick_save\<close>: flush the user's
  albums, read the draft again, call \<^verbatim>\<open>create_tasting\<close>, and only when it has returned
  \<^verbatim>\<open>state.clear()\<close> and send the card. The result is the exception that left the
  handler, if any, and the world at that point.
\<close>

definition persist_draft ::
  "env \<Rightarrow> int \<Rightarrow> tasting_data \<Rightarrow> infusion_dict list \<Rightarrow> photo_entry list \<Rightarrow> world
     \<Rightarrow> py_error option \<times> world" where
  "persist_draft E uid td infs photos w =
     (let w1 = emit (CreateTasting td infs photos) w in
      case create_tasting E (db w1) td infs photos of
        (Inl e, s', n) \<Rightarrow> (Some e, w1\<lparr>db := s'\<rparr>)
      | (Inr t, s', n) \<Rightarrow> (None, emit (SendCard uid (t_id t)) (clear_state uid (w1\<lparr>db := s'\<rparr>))))"

definition finalize_save :: "env \<Rightarrow> int \<Rightarrow> world \<Rightarrow> py_error option \<times> world" where
  "finalize_save E uid w =
     (let w1 = flush_user_albums E (user_id (get_data w uid)) uid True w;
          d = get_data w1 uid
      in persist_draft E uid (full_tasting_data d)
           (case infusions d of Some l \<Rightarrow> l | None \<Rightarrow> [])
           (take (MAX_PHOTOS E) (photos_of d)) w1)"

definition finalize_quick_save :: "env \<Rightarrow> int \<Rightarrow> world \<Rightarrow> py_error option \<times> world" where
  "finalize_quick_save E uid w =
     (let w1 = flush_user_albums E (user_id (get_data w uid)) uid True w;
          d = get_data w1 uid
      in persist_draft E uid (quick_tasting_data d) [] (photos_of d) w1)"

definition finalize_after_photos :: "env \<Rightarrow> int \<Rightarrow> world \<Rightarrow> py_error option \<times> world" where
  "finalize_after_photos E uid w =
     (if flow_kind (get_data w uid) = Some ''quick'' then finalize_quick_save E uid w
      else finalize_save E uid w)"

text \<open>A handler's last statement, reached only when nothing was raised before it.\<close>

definition and_then :: "py_error option \<times> world \<Rightarrow> (world \<Rightarrow> world) \<Rightarrow> py_error option \<times> world" where
  "and_then r f = (case r of (None, w) \<Rightarrow> (None, f w) | (Some e, w) \<Rightarrow> (Some e, w))"

definition photos_done :: "env \<Rightarrow> int \<Rightarrow> world \<Rightarrow> py_error option \<times> world" where
  "photos_done E uid w =
     (if get_state w uid \<noteq> Some PhotoFlow_photos
      then (None, emit (CallAnswer uid CannotFinishPhotos) w)
      else if photos_of (get_data w uid) = []
      then (None, emit (CallAnswer uid NeedPhotoOrSkip) w)
      else and_then (finalize_after_photos E uid (clear_photo_progress uid uid w))
             (emit (CallAnswer uid NoText)))"

definition photos_skip :: "env \<Rightarrow> int \<Rightarrow> world \<Rightarrow> py_error option \<times> world" where
  "photos_skip E uid w =
     (if photos_of (get_data w uid) \<noteq> []
      then (None, emit (CallAnswer uid PhotosPresent) w)
      else and_then
             (finalize_after_photos E uid
                (clear_photo_progress uid uid
                   (update_data uid (\<lambda>d. d\<lparr>new_photos := Some []\<rparr>)
                      (flush_user_albums E (Some uid) uid False w))))
             (emit (CallAnswer uid NoText)))"

definition prompt_photos :: "env \<Rightarrow> int \<Rightarrow> world \<Rightarrow> world" where
  "prompt_photos E uid w =
     (let w1 = update_data uid
                 (\<lambda>d. d\<lparr>new_photos := Some [], photo_count := Some 0,
                         photo_limit := Some (int (MAX_PHOTOS E))\<rparr>)
                 (flush_user_albums E (Some uid) uid False w)
      in case answer_message uid (Ask PhotoFlow_photos) (clear_photo_progress uid uid w1) of
           (mid, w2) \<Rightarrow>
             set_state uid (Some PhotoFlow_photos)
               (update_data uid (\<lambda>d. d\<lparr>progress_msg_id := Val mid\<rparr>) w2))"

text \<open>The calls of the persistence gateway recorded in the log.\<close>

fun is_create :: "event \<Rightarrow> bool" where
  "is_create (CreateTasting td infs photos) = True"
| "is_create _ = False"

definition persist_calls :: "world \<Rightarrow> event list" where
  "persist_calls w = filter is_create (log w)"

text \<open>
  How a draft may differ after photos were stored: in the photo list and in the
  bookkeeping of the photo counter, and in no other key.
\<close>

definition draft_frame :: "fsm_data \<Rightarrow> fsm_data \<Rightarrow> bool" where
  "draft_frame d d' =
     (d' = d\<lparr>new_photos := new_photos d', photo_count := photo_count d',
            photo_limit := photo_limit d', progress_msg_id := progress_msg_id d'\<rparr>)"

definition extends :: "'a list \<Rightarrow> 'a list \<Rightarrow> bool" where
  "extends xs ys = (take (length xs) ys = xs)"

text \<open>
  The same for the world: the store and the sessions of the other users are the same, and
  the session \<open>st\<close> has the same state and a draft that differs as above, its photo list
  only extended.
\<close>

definition session_frame :: "int \<Rightarrow> world \<Rightarrow> world \<Rightarrow> bool" where
  "session_frame st w w' =
     (db w' = db w
      \<and> sessions w' = (sessions w)(st := (sessions w st)\<lparr>data := data (sessions w' st)\<rparr>)
      \<and> draft_frame (get_data w st) (get_data w' st)
      \<and> extends (photos_of (get_data w st)) (photos_of (get_data w' st)))"

text \<open>The user's entries of the album buffer, and the buffer without them.\<close>

definition user_entries :: "world \<Rightarrow> int \<Rightarrow> ((int \<times> string) \<times> album_entry) list" where
  "user_entries w u = filter (\<lambda>p. fst (fst p) = u) (ALBUM_BUFFER w)"

definition other_entries :: "world \<Rightarrow> int \<Rightarrow> ((int \<times> string) \<times> album_entry) list" where
  "other_entries w u = filter (\<lambda>p. fst (fst p) \<noteq> u) (ALBUM_BUFFER w)"

text \<open>The entries that \<^verbatim>\<open>flush_user_albums(data.get("user_id"), state)\<close> will flush.\<close>

definition buffered_for_draft :: "world \<Rightarrow> int \<Rightarrow> ((int \<times> string) \<times> album_entry) list" where
  "buffered_for_draft w uid =
     (case user_id (get_data w uid) of None \<Rightarrow> [] | Some u \<Rightarrow> user_entries w u)"

text \<open>
  What \<^verbatim>\<open>_process_album_entry\<close> appends to the photo list for one buffered file: nothing for
  a file without an id or one that Telegram does not deliver.
\<close>

definition stored_photo :: "env \<Rightarrow> file_entry \<Rightarrow> photo_entry option" where
  "stored_photo E fe =
     (if fe_file_id fe = [] then None
      else case get_file E (fe_file_id fe) of
             None \<Rightarrow> None
           | Some file_path \<Rightarrow>
               (case download_file E file_path of
                  None \<Rightarrow> None
                | Some body \<Rightarrow>
                    Some (photo_draft_of (fe_file_id fe) (fe_file_unique_id fe) file_path body)))"

text \<open>The files a user has in the buffer, and the timers still asleep for them.\<close>

definition buffered_files :: "world \<Rightarrow> int \<Rightarrow> file_entry list" where
  "buffered_files w u = concat (map (\<lambda>p. files (snd p)) (user_entries w u))"

definition pending_timers :: "world \<Rightarrow> int \<Rightarrow> nat list" where
  "pending_timers w u =
     concat (map (\<lambda>p. case e_task (snd p) of
                          None \<Rightarrow> []
                        | Some i \<Rightarrow>
                            if i < length (tasks w) \<and> status (tasks w ! i) = Sleeping then [i]
                            else [])
               (user_entries w u))"

subsection \<open>Sample values\<close>

text \<open>Concrete stores, environments and drafts on which the theorems below are instantiated.\<close>

definition sample_data :: "int \<Rightarrow> tasting_data" where
  "sample_data uid =
     \<lparr>td_user_id = Some uid, td_name = Some ''Da Hong Pao'', td_year = Some 2019,
      td_region = None, td_category = Some ''Oolong'', td_grams = Some (Finite 50 (-1)),
      td_temp_c = None, td_tasted_at = None, td_gear = None, td_aroma_dry = None,
      td_aroma_warmed = None, td_aroma_after = None, td_effects_csv = None,
      td_scenarios_csv = None, td_rating = Some 8, td_summary = None\<rparr>"

definition empty_store :: store where
  "empty_store = \<lparr>tastings = [], infusion_rows = [], photo_rows = []\<rparr>"

definition local_save :: "int option \<Rightarrow> int \<Rightarrow> string \<Rightarrow> string \<Rightarrow> save_result option" where
  "local_save uid tid b hint =
     Some \<lparr>sr_storage_backend = ''local'', sr_object_key = Some hint,
           sr_content_type = Some ''image/jpeg'', sr_size_bytes = int (length b)\<rparr>"

definition sample_get_file :: "string \<Rightarrow> string option" where
  "sample_get_file f = (if f = ''gone'' then None else Some (''photos/'' @ f @ ''.jpg''))"

definition sample_download_file :: "string \<Rightarrow> string option" where
  "sample_download_file path = (if path = ''photos/lost.jpg'' then None else Some (''bytes of '' @ path))"

definition quiet_env :: env where
  "quiet_env = \<lparr>rivals = [], save_photo_bytes = local_save, get_file = sample_get_file,
                download_file = sample_download_file, MAX_PHOTOS = 3\<rparr>"

definition rival_env :: env where
  "rival_env = quiet_env\<lparr>rivals := [[sample_data 7]]\<rparr>"

definition busy_env :: env where
  "busy_env = quiet_env\<lparr>rivals := [[sample_data 7], [sample_data 7]]\<rparr>"

definition sample_row :: "int \<Rightarrow> int \<Rightarrow> tasting_row" where
  "sample_row i n = \<lparr>t_id = i, t_seq_no = n, t_data = sample_data 7\<rparr>"

definition sample_photo :: "string \<Rightarrow> photo_entry" where
  "sample_photo f =
     PhotoDict \<lparr>pd_body = Some (''bytes of photos/'' @ f @ ''.jpg''),
       pd_filename_hint = Some (f @ ''.jpg''), pd_filename = None,
       pd_telegram_file_id = Some f, pd_telegram_file_unique_id = Some (''u'' @ f)\<rparr>"

definition blank_world :: world where
  "blank_world =
     \<lparr>sessions = (\<lambda>uid. \<lparr>fsm = None, data = empty_data\<rparr>), ALBUM_BUFFER = [], tasks = [],
      now = 0, db = empty_store, log = [], next_message_id = 1\<rparr>"

text \<open>A draft of user 7 at the photo step of the full questionnaire, with the given photos.\<close>

definition photo_step_data :: "photo_entry list \<Rightarrow> fsm_data" where
  "photo_step_data ps =
     empty_data\<lparr>user_id := Some 7, name := Val ''Da Hong Pao'', year := Val 2019,
       region := Null, category := Val ''Oolong'', grams := Val (Finite 50 (-1)),
       effects := Some [''Teplo''], scenarios := Some [], rating := Val 8,
       summary := Null, infusions := Some [], new_photos := Some ps,
       photo_count := Some (int (length ps)), photo_limit := Some 3,
       progress_msg_id := Val 41, live_q_id := Val 40\<rparr>"

definition photo_step_world :: "photo_entry list \<Rightarrow> world" where
  "photo_step_world ps =
     blank_world\<lparr>sessions := (sessions blank_world)
       (7 := \<lparr>fsm = Some PhotoFlow_photos, data = photo_step_data ps\<rparr>),
       next_message_id := 42\<rparr>"

text \<open>
  The same draft with one photo stored and an album of one more photo still in the buffer,
  its timer asleep.
\<close>

definition album_world :: world where
  "album_world =
     (photo_step_world [sample_photo ''a''])
       \<lparr>ALBUM_BUFFER :=
          [((7, ''g1''),
            \<lparr>files = [\<lparr>fe_file_id = ''b'', fe_file_unique_id = ''ub''\<rparr>],
             e_message = 7, e_state = 7, e_task = Some 0\<rparr>)],
        tasks := [\<lparr>task_key = (7, ''g1''), deadline = 2000, status = Sleeping\<rparr>]\<rparr>"

section \<open>Theorems\<close>

subsection \<open>The sequence number and the retry loop\<close>

lemma fold_max_Max: "fold max xs (x::int) = Max (set (x # xs))"
  by (rule Max.set_eq_fold [symmetric])

lemma next_seq_for_user_eq:
  "next_seq_for_user s uid =
     (if user_seqs s uid = [] then 1 else Max (set (user_seqs s uid)) + 1)"
  by (cases "user_seqs s uid") (simp_all add: next_seq_for_user_def fold_max_Max)

lemma user_seq_bound:
  assumes "(uid, n) \<in> set (user_seq_keys s)"
  shows "n < next_seq_for_user s uid"
proof -
  from assms have mem: "n \<in> set (user_seqs s uid)"
    by (auto simp: user_seq_keys_def user_seqs_def)
  then have ne: "user_seqs s uid \<noteq> []" by auto
  from mem have "n \<le> Max (set (user_seqs s uid))" by simp
  with ne show ?thesis by (simp add: next_seq_for_user_eq)
qed

lemma next_seq_fresh: "(uid, next_seq_for_user s uid) \<notin> set (user_seq_keys s)"
  using user_seq_bound [of uid "next_seq_for_user s uid" s] by auto

lemma flush_insert_unique:
  "unique_user_seq s \<Longrightarrow> flush_insert s n td = Inr (s', t) \<Longrightarrow> unique_user_seq s'"
  by (auto simp: flush_insert_def unique_user_seq_def user_seq_keys_def Let_def split: if_splits)

lemma rival_commit_unique: "unique_user_seq s \<Longrightarrow> unique_user_seq (rival_commit td s)"
  by (auto simp: rival_commit_def split: sum.splits dest: flush_insert_unique)

lemma fold_rival_commit_unique:
  "unique_user_seq s \<Longrightarrow> unique_user_seq (fold rival_commit tds s)"
  by (induction tds arbitrary: s) (simp_all add: rival_commit_unique)

lemma add_photos_tastings:
  "add_photos E uid tid ps s = Inr s' \<Longrightarrow> tastings s' = tastings s"
  by (induction E uid tid ps s rule: add_photos.induct)
     (auto split: option.splits prod.splits)

lemma add_infusions_tastings: "tastings (add_infusions tid infs s) = tastings s"
  by (simp add: add_infusions_def)

lemma unique_cong: "tastings s' = tastings s \<Longrightarrow> unique_user_seq s' = unique_user_seq s"
  by (simp add: unique_user_seq_def user_seq_keys_def)

lemma attempt_tx_cases:
  "(\<exists>e. attempt_tx E k s td infs photos = (Inl e, fold rival_commit (rivals_at E k) s))
   \<or> (\<exists>s2 t s3. flush_insert (fold rival_commit (rivals_at E k) s)
                    (next_seq_for_user s (td_user_id td)) td = Inr (s2, t)
         \<and> add_photos E (td_user_id td) (t_id t) photos (add_infusions (t_id t) infs s2) = Inr s3
         \<and> attempt_tx E k s td infs photos = (Inr t, s3))"
  unfolding attempt_tx_def Let_def
  by (cases "flush_insert (fold rival_commit (rivals_at E k) s)
               (next_seq_for_user s (td_user_id td)) td")
     (auto split: sum.splits)

lemma attempt_tx_unique:
  assumes "unique_user_seq s"
  shows "unique_user_seq (snd (attempt_tx E k s td infs photos))"
proof -
  let ?s1 = "fold rival_commit (rivals_at E k) s"
  have u1: "unique_user_seq ?s1" using assms by (rule fold_rival_commit_unique)
  from attempt_tx_cases [of E k s td infs photos] show ?thesis
  proof (elim disjE exE conjE)
    fix e assume "attempt_tx E k s td infs photos = (Inl e, ?s1)"
    then show ?thesis using u1 by simp
  next
    fix s2 t s3
    assume fl: "flush_insert ?s1 (next_seq_for_user s (td_user_id td)) td = Inr (s2, t)"
      and ph: "add_photos E (td_user_id td) (t_id t) photos (add_infusions (t_id t) infs s2) = Inr s3"
      and at: "attempt_tx E k s td infs photos = (Inr t, s3)"
    have u2: "unique_user_seq s2" using u1 fl by (rule flush_insert_unique)
    have "tastings s3 = tastings (add_infusions (t_id t) infs s2)"
      using ph by (rule add_photos_tastings)
    then have "tastings s3 = tastings s2" by (simp add: add_infusions_tastings)
    then have "unique_user_seq s3" using u2 by (simp add: unique_user_seq_def user_seq_keys_def)
    then show ?thesis using at by simp
  qed
qed

lemma create_loop_1:
  "create_loop E (Suc 0) s' td infs photos =
     (case attempt_tx E 2 s' td infs photos of (r, s2) \<Rightarrow> (r, s2, 2))"
proof -
  obtain r s2 where at: "attempt_tx E 2 s' td infs photos = (r, s2)"
    by (cases "attempt_tx E 2 s' td infs photos")
  have at': "attempt_tx E (Suc (Suc 0)) s' td infs photos = (r, s2)"
    using at by (simp add: numeral_2_eq_2)
  show ?thesis
  proof (cases r)
    case (Inr t)
    then show ?thesis using at at'
      by (subst create_loop.simps) (simp add: MAX_CREATE_ATTEMPTS_def)
  next
    case (Inl e)
    then show ?thesis using at at'
      by (subst create_loop.simps) (cases e; simp add: MAX_CREATE_ATTEMPTS_def)
  qed
qed

lemma create_tasting_unroll:
  "create_tasting E s td infs photos =
     (case attempt_tx E 1 s td infs photos of
        (Inl IntegrityError, s1) \<Rightarrow>
          (case attempt_tx E 2 s1 td infs photos of (r, s2) \<Rightarrow> (r, s2, 2))
      | (r, s1) \<Rightarrow> (r, s1, 1))"
proof -
  obtain r s1 where at: "attempt_tx E 1 s td infs photos = (r, s1)"
    by (cases "attempt_tx E 1 s td infs photos")
  have at': "attempt_tx E (Suc 0) s td infs photos = (r, s1)"
    using at by simp
  show ?thesis
  proof (cases r)
    case (Inr t)
    then show ?thesis using at at' unfolding create_tasting_def
      by (subst create_loop.simps) (simp add: MAX_CREATE_ATTEMPTS_def)
  next
    case (Inl e)
    then show ?thesis using at at' unfolding create_tasting_def
      by (subst create_loop.simps) (cases e; simp add: MAX_CREATE_ATTEMPTS_def create_loop_1)
  qed
qed


lemma rivals_at_Nil: "rivals E = [] \<Longrightarrow> rivals_at E k = []"
  by (auto simp: rivals_at_def)

lemma flush_insert_Inr:
  "flush_insert s n td = Inr (s2, t) \<Longrightarrow>
     t_seq_no t = n \<and> t_data t = td \<and> tastings s2 = tastings s @ [t]"
  by (auto simp: flush_insert_def Let_def split: if_splits)

lemma attempt_tx_quiet_Inr:
  assumes "rivals_at E k = []" and "attempt_tx E k s td infs photos = (Inr t, s')"
  shows "t_seq_no t = next_seq_for_user s (td_user_id td) \<and> t_data t = td
         \<and> tastings s' = tastings s @ [t]"
proof -
  from assms obtain s2 s3 where
    fl: "flush_insert s (next_seq_for_user s (td_user_id td)) td = Inr (s2, t)" and
    ph: "add_photos E (td_user_id td) (t_id t) photos (add_infusions (t_id t) infs s2) = Inr s3" and
    s3: "s' = s3"
    by (auto simp: attempt_tx_def split: sum.splits prod.splits)
  from ph have "tastings s3 = tastings s2"
    by (auto dest: add_photos_tastings simp: add_infusions_tastings)
  with flush_insert_Inr [OF fl] s3 show ?thesis by simp
qed

lemma attempt_tx_quiet_Inl:
  assumes "rivals_at E k = []" and "attempt_tx E k s td infs photos = (Inl e, s')"
  shows "s' = s"
  using assms by (auto simp: attempt_tx_def split: sum.splits prod.splits)

lemma create_tasting_quiet:
  assumes q: "rivals E = []" and c: "create_tasting E s td infs photos = (Inr t, s', n)"
  shows "t_seq_no t = next_seq_for_user s (td_user_id td) \<and> t_data t = td
         \<and> tastings s' = tastings s @ [t]"
proof -
  obtain r1 s1 where a1: "attempt_tx E 1 s td infs photos = (r1, s1)"
    by (cases "attempt_tx E 1 s td infs photos")
  show ?thesis
  proof (cases "r1 = Inl IntegrityError")
    case True
    then have s1: "s1 = s" using attempt_tx_quiet_Inl [OF rivals_at_Nil [OF q], of 1] a1 by simp
    obtain r2 s2 where a2: "attempt_tx E 2 s td infs photos = (r2, s2)"
      by (cases "attempt_tx E 2 s td infs photos")
    from c a1 a2 True s1 have "r2 = Inr t" "s2 = s'"
      by (simp_all add: create_tasting_unroll)
    with a2 attempt_tx_quiet_Inr [OF rivals_at_Nil [OF q], of 2] show ?thesis by simp
  next
    case False
    with c a1 have "r1 = Inr t \<and> s1 = s'"
      by (cases r1; simp add: create_tasting_unroll split: py_error.splits)
    with a1 attempt_tx_quiet_Inr [OF rivals_at_Nil [OF q], of 1] show ?thesis by simp
  qed
qed

lemma user_seqs_append:
  "tastings s' = tastings s @ [t] \<Longrightarrow> td_user_id (t_data t) = uid \<Longrightarrow>
     user_seqs s' uid = user_seqs s uid @ [t_seq_no t]"
  by (simp add: user_seqs_def)

lemma next_seq_after_append:
  assumes "user_seqs s' uid = user_seqs s uid @ [next_seq_for_user s uid]"
  shows "next_seq_for_user s' uid = next_seq_for_user s uid + 1"
proof (cases "user_seqs s uid = []")
  case True
  then show ?thesis using assms by (simp add: next_seq_for_user_eq)
next
  case False
  have "Max (set (user_seqs s uid @ [Max (set (user_seqs s uid)) + 1]))
        = Max (set (user_seqs s uid)) + 1"
    using False by (simp add: max_def)
  then show ?thesis using assms False by (simp add: next_seq_for_user_eq)
qed


lemma create_tasting_unique:
  assumes "unique_user_seq s"
  shows "unique_user_seq (fst (snd (create_tasting E s td infs photos)))"
proof -
  obtain r1 s1 where a1: "attempt_tx E 1 s td infs photos = (r1, s1)"
    by (cases "attempt_tx E 1 s td infs photos")
  obtain r2 s2 where a2: "attempt_tx E 2 s1 td infs photos = (r2, s2)"
    by (cases "attempt_tx E 2 s1 td infs photos")
  have u1: "unique_user_seq s1"
    using attempt_tx_unique [OF assms, of E 1 td infs photos] a1 by simp
  have u2: "unique_user_seq s2"
    using attempt_tx_unique [OF u1, of E 2 td infs photos] a2 by simp
  show ?thesis
  proof (cases "r1 = Inl IntegrityError")
    case True
    then show ?thesis using a1 a2 u2 by (simp add: create_tasting_unroll)
  next
    case False
    then show ?thesis using a1 u1
      by (cases r1; simp add: create_tasting_unroll split: py_error.splits)
  qed
qed

lemma rival_commit_fresh:
  assumes "td_user_id td_r \<noteq> None" "td_name td_r \<noteq> None" "td_category td_r \<noteq> None"
  shows "tastings (rival_commit td_r s) = tastings s @
           [\<lparr>t_id = int (length (tastings s)) + 1,
             t_seq_no = next_seq_for_user s (td_user_id td_r), t_data = td_r\<rparr>]"
  using assms next_seq_fresh [of "td_user_id td_r" s]
  by (simp add: rival_commit_def flush_insert_def Let_def)

lemma create_tasting_one_rival:
  assumes r: "rivals E = [[td_r]]"
    and same: "td_user_id td_r = td_user_id td"
    and valid: "td_user_id td_r \<noteq> None" "td_name td_r \<noteq> None" "td_category td_r \<noteq> None"
    and c: "create_tasting E s td infs photos = (Inr t, s', n)"
  shows "n = 2 \<and> t_seq_no t = next_seq_for_user s (td_user_id td) + 1
         \<and> user_seqs s' (td_user_id td) = user_seqs s (td_user_id td) @
             [next_seq_for_user s (td_user_id td), next_seq_for_user s (td_user_id td) + 1]"
proof -
  let ?uid = "td_user_id td"
  let ?m = "next_seq_for_user s ?uid"
  let ?s1 = "rival_commit td_r s"
  have r1: "rivals_at E 1 = [td_r]" and r2: "rivals_at E 2 = []"
    using r by (simp_all add: rivals_at_def)
  have t1: "tastings ?s1 = tastings s @
      [\<lparr>t_id = int (length (tastings s)) + 1, t_seq_no = ?m, t_data = td_r\<rparr>]"
    using rival_commit_fresh [OF valid, of s] same by simp
  have us1: "user_seqs ?s1 ?uid = user_seqs s ?uid @ [?m]"
    using t1 same by (simp add: user_seqs_def)
  have "(?uid, ?m) \<in> set (user_seq_keys ?s1)"
    using t1 same by (simp add: user_seq_keys_def)
  then have fl: "flush_insert ?s1 ?m td = Inl IntegrityError"
    by (simp add: flush_insert_def)
  have a1: "attempt_tx E 1 s td infs photos = (Inl IntegrityError, ?s1)"
    using r1 fl by (simp add: attempt_tx_def)
  obtain r2' s2 where a2: "attempt_tx E 2 ?s1 td infs photos = (r2', s2)"
    by (cases "attempt_tx E 2 ?s1 td infs photos")
  from c a1 a2 have res: "r2' = Inr t" "s2 = s'" "n = 2"
    by (simp_all add: create_tasting_unroll)
  from attempt_tx_quiet_Inr [OF r2, of ?s1 td infs photos t s'] a2 res
  have q: "t_seq_no t = next_seq_for_user ?s1 ?uid" "t_data t = td"
     "tastings s' = tastings ?s1 @ [t]" by simp_all
  have n1: "next_seq_for_user ?s1 ?uid = ?m + 1"
    using us1 by (rule next_seq_after_append)
  have "user_seqs s' ?uid = user_seqs ?s1 ?uid @ [t_seq_no t]"
    using q by (simp add: user_seqs_def)
  with us1 q n1 res show ?thesis by simp
qed

lemmas eval_store = create_tasting_unroll attempt_tx_def rivals_at_def flush_insert_def
  next_seq_for_user_def user_seqs_def user_seq_keys_def add_infusions_def rival_commit_def
  empty_store_def sample_data_def quiet_env_def rival_env_def busy_env_def sample_row_def
  unique_user_seq_def Let_def

text \<open>
  C1. Without concurrent creators the sequence number given to a new tasting is the user's
  maximum plus one (1 when the user has no record) and the next creation for the same user
  gets the following number; whatever other sessions commit in between, the pairs
  (user, seq\_no) in the store stay distinct; and when another session creates a record for
  the same user between this call's read and its insert, the call's second attempt gives the
  two records the two distinct, contiguous numbers that follow the maximum.
\<close>

theorem create_tasting_seq_no:
  "(unique_user_seq s \<longrightarrow> unique_user_seq (fst (snd (create_tasting E s td infs photos))))
   \<and> (rivals E = [] \<longrightarrow> create_tasting E s td infs photos = (Inr t, s', n) \<longrightarrow>
        t_seq_no t = (if user_seqs s (td_user_id td) = [] then 1
                      else Max (set (user_seqs s (td_user_id td))) + 1)
        \<and> user_seqs s' (td_user_id td) = user_seqs s (td_user_id td) @ [t_seq_no t]
        \<and> (\<forall>td2 infs2 photos2 t2 s2 n2.
              td_user_id td2 = td_user_id td \<longrightarrow>
              create_tasting E s' td2 infs2 photos2 = (Inr t2, s2, n2) \<longrightarrow>
              t_seq_no t2 = t_seq_no t + 1))
   \<and> (rivals E = [[td_r]] \<longrightarrow> td_user_id td_r = td_user_id td \<longrightarrow>
        td_user_id td_r \<noteq> None \<longrightarrow> td_name td_r \<noteq> None \<longrightarrow> td_category td_r \<noteq> None \<longrightarrow>
        create_tasting E s td infs photos = (Inr t, s', n) \<longrightarrow>
        n = 2 \<and> t_seq_no t = next_seq_for_user s (td_user_id td) + 1
        \<and> user_seqs s' (td_user_id td) = user_seqs s (td_user_id td) @
             [next_seq_for_user s (td_user_id td), next_seq_for_user s (td_user_id td) + 1])"
proof (intro conjI impI)
  assume "unique_user_seq s"
  then show "unique_user_seq (fst (snd (create_tasting E s td infs photos)))"
    by (rule create_tasting_unique)
next
  assume q: "rivals E = []" and c: "create_tasting E s td infs photos = (Inr t, s', n)"
  note f = create_tasting_quiet [OF q c]
  show "t_seq_no t = (if user_seqs s (td_user_id td) = [] then 1
                      else Max (set (user_seqs s (td_user_id td))) + 1)"
    using f by (simp add: next_seq_for_user_eq)
  show us: "user_seqs s' (td_user_id td) = user_seqs s (td_user_id td) @ [t_seq_no t]"
    using f by (simp add: user_seqs_def)
  show "\<forall>td2 infs2 photos2 t2 s2 n2.
          td_user_id td2 = td_user_id td \<longrightarrow>
          create_tasting E s' td2 infs2 photos2 = (Inr t2, s2, n2) \<longrightarrow>
          t_seq_no t2 = t_seq_no t + 1"
  proof (intro allI impI)
    fix td2 infs2 photos2 t2 s2 n2
    assume same: "td_user_id td2 = td_user_id td"
      and c2: "create_tasting E s' td2 infs2 photos2 = (Inr t2, s2, n2)"
    have "t_seq_no t2 = next_seq_for_user s' (td_user_id td)"
      using create_tasting_quiet [OF q c2] same by simp
    also have "\<dots> = next_seq_for_user s (td_user_id td) + 1"
      using us f by (intro next_seq_after_append) simp
    finally show "t_seq_no t2 = t_seq_no t + 1" using f by simp
  qed
next
  assume "rivals E = [[td_r]]" "td_user_id td_r = td_user_id td"
    "td_user_id td_r \<noteq> None" "td_name td_r \<noteq> None" "td_category td_r \<noteq> None"
    "create_tasting E s td infs photos = (Inr t, s', n)"
  from create_tasting_one_rival [OF this]
  show "n = 2" "t_seq_no t = next_seq_for_user s (td_user_id td) + 1"
    "user_seqs s' (td_user_id td) = user_seqs s (td_user_id td) @
       [next_seq_for_user s (td_user_id td), next_seq_for_user s (td_user_id td) + 1]"
    by simp_all
qed

theorem create_tasting_seq_no_witness:
  "unique_user_seq empty_store
   \<and> unique_user_seq (fst (snd (create_tasting quiet_env empty_store (sample_data 7) [] [])))
   \<and> rivals quiet_env = []
   \<and> create_tasting quiet_env empty_store (sample_data 7) [] [] =
       (Inr (sample_row 1 1), empty_store\<lparr>tastings := [sample_row 1 1]\<rparr>, 1)
   \<and> t_seq_no (sample_row 1 1) = 1
   \<and> create_tasting quiet_env (empty_store\<lparr>tastings := [sample_row 1 1]\<rparr>) (sample_data 7) [] [] =
       (Inr (sample_row 2 2), empty_store\<lparr>tastings := [sample_row 1 1, sample_row 2 2]\<rparr>, 1)
   \<and> t_seq_no (sample_row 2 2) = t_seq_no (sample_row 1 1) + 1
   \<and> rivals rival_env = [[sample_data 7]]
   \<and> create_tasting rival_env empty_store (sample_data 7) [] [] =
       (Inr (sample_row 2 2), empty_store\<lparr>tastings := [sample_row 1 1, sample_row 2 2]\<rparr>, 2)
   \<and> user_seqs (empty_store\<lparr>tastings := [sample_row 1 1, sample_row 2 2]\<rparr>) (Some 7) =
       user_seqs empty_store (Some 7) @ [1, 2]"
proof -
  let ?s1 = "empty_store\<lparr>tastings := [sample_row 1 1]\<rparr>"
  let ?s2 = "empty_store\<lparr>tastings := [sample_row 1 1, sample_row 2 2]\<rparr>"
  have u0: "unique_user_seq empty_store" by (simp add: eval_store)
  have q: "rivals quiet_env = []" by (simp add: quiet_env_def)
  have r: "rivals rival_env = [[sample_data 7]]" by (simp add: rival_env_def quiet_env_def)
  have c1: "create_tasting quiet_env empty_store (sample_data 7) [] [] =
      (Inr (sample_row 1 1), ?s1, 1)" by (simp add: eval_store)
  have c2: "create_tasting quiet_env ?s1 (sample_data 7) [] [] = (Inr (sample_row 2 2), ?s2, 1)"
    by (simp add: eval_store)
  have c3: "create_tasting rival_env empty_store (sample_data 7) [] [] =
      (Inr (sample_row 2 2), ?s2, 2)" by (simp add: eval_store)
  have n0: "next_seq_for_user empty_store (Some 7) = 1" by (simp add: eval_store)
  have uid: "td_user_id (sample_data 7) = Some 7" "td_name (sample_data 7) \<noteq> None"
    "td_category (sample_data 7) \<noteq> None" by (simp_all add: sample_data_def)
  note A = create_tasting_seq_no [where s = empty_store and E = quiet_env
      and td = "sample_data 7" and infs = "[]" and photos = "[]"
      and t = "sample_row 1 1" and s' = ?s1 and n = 1]
  note B = create_tasting_seq_no [where s = empty_store and E = rival_env
      and td = "sample_data 7" and infs = "[]" and photos = "[]"
      and t = "sample_row 2 2" and s' = ?s2 and n = 2 and td_r = "sample_data 7"]
  have a1: "unique_user_seq (fst (snd (create_tasting quiet_env empty_store (sample_data 7) [] [])))"
    using A u0 by blast
  have a2: "\<forall>td2 infs2 photos2 t2 s2 n2.
      td_user_id td2 = td_user_id (sample_data 7) \<longrightarrow>
      create_tasting quiet_env ?s1 td2 infs2 photos2 = (Inr t2, s2, n2) \<longrightarrow>
      t_seq_no t2 = t_seq_no (sample_row 1 1) + 1"
    using A q c1 by blast
  have a3: "t_seq_no (sample_row 2 2) = t_seq_no (sample_row 1 1) + 1"
    using a2 c2 by blast
  have b: "user_seqs ?s2 (td_user_id (sample_data 7)) =
      user_seqs empty_store (td_user_id (sample_data 7)) @
        [next_seq_for_user empty_store (td_user_id (sample_data 7)),
         next_seq_for_user empty_store (td_user_id (sample_data 7)) + 1]"
    using B r c3 uid by simp
  have b': "user_seqs ?s2 (Some 7) = user_seqs empty_store (Some 7) @ [1, 2]"
    using b uid n0 by simp
  have s1: "t_seq_no (sample_row 1 1) = 1" by (simp add: sample_row_def)
  show ?thesis using u0 a1 q c1 s1 c2 a3 r c3 b' by simp
qed

text \<open>
  C2. \<^verbatim>\<open>create_tasting\<close> makes a second attempt exactly when its first attempt raises
  \<^verbatim>\<open>IntegrityError\<close>, and never a third: the second attempt reads the sequence number
  again from the store as the first attempt left it, and whatever it returns or raises is
  the outcome of the call. With one concurrent creation of the same user the retry succeeds;
  with a concurrent creation during each of the two attempts the second uniqueness violation
  is raised to the caller.
\<close>

theorem create_tasting_retries_once:
  "create_tasting E s td infs photos =
     (case attempt_tx E 1 s td infs photos of (r1, s1) \<Rightarrow>
        if r1 = Inl IntegrityError
        then (case attempt_tx E 2 s1 td infs photos of (r2, s2) \<Rightarrow> (r2, s2, 2))
        else (r1, s1, 1))
   \<and> snd (snd (create_tasting E s td infs photos)) \<le> 2
   \<and> attempt_tx rival_env 1 empty_store (sample_data 7) [] [] =
       (Inl IntegrityError, empty_store\<lparr>tastings := [sample_row 1 1]\<rparr>)
   \<and> create_tasting rival_env empty_store (sample_data 7) [] [] =
       (Inr (sample_row 2 2), empty_store\<lparr>tastings := [sample_row 1 1, sample_row 2 2]\<rparr>, 2)
   \<and> attempt_tx busy_env 2 (empty_store\<lparr>tastings := [sample_row 1 1]\<rparr>) (sample_data 7) [] [] =
       (Inl IntegrityError, empty_store\<lparr>tastings := [sample_row 1 1, sample_row 2 2]\<rparr>)
   \<and> create_tasting busy_env empty_store (sample_data 7) [] [] =
       (Inl IntegrityError, empty_store\<lparr>tastings := [sample_row 1 1, sample_row 2 2]\<rparr>, 2)"
proof -
  obtain r1 s1 where a1: "attempt_tx E 1 s td infs photos = (r1, s1)"
    by (cases "attempt_tx E 1 s td infs photos")
  obtain r2 s2 where a2: "attempt_tx E 2 s1 td infs photos = (r2, s2)"
    by (cases "attempt_tx E 2 s1 td infs photos")
  have eq: "create_tasting E s td infs photos =
      (if r1 = Inl IntegrityError then (r2, s2, 2) else (r1, s1, 1))"
    using a1 a2 by (cases r1; simp add: create_tasting_unroll split: py_error.splits)
  have e1: "attempt_tx rival_env 1 empty_store (sample_data 7) [] [] =
       (Inl IntegrityError, empty_store\<lparr>tastings := [sample_row 1 1]\<rparr>)"
    by (simp add: eval_store)
  have e2: "create_tasting rival_env empty_store (sample_data 7) [] [] =
       (Inr (sample_row 2 2), empty_store\<lparr>tastings := [sample_row 1 1, sample_row 2 2]\<rparr>, 2)"
    by (simp add: eval_store)
  have e3: "attempt_tx busy_env 2 (empty_store\<lparr>tastings := [sample_row 1 1]\<rparr>) (sample_data 7) [] [] =
       (Inl IntegrityError, empty_store\<lparr>tastings := [sample_row 1 1, sample_row 2 2]\<rparr>)"
    by (simp add: eval_store)
  have e4: "create_tasting busy_env empty_store (sample_data 7) [] [] =
       (Inl IntegrityError, empty_store\<lparr>tastings := [sample_row 1 1, sample_row 2 2]\<rparr>, 2)"
    by (simp add: eval_store)
  show ?thesis using eq a1 a2 e1 e2 e3 e4 by simp
qed

subsection \<open>What the photo step leaves in the log\<close>

lemma calls_emit [simp]:
  "persist_calls (emit e w) = persist_calls w @ (if is_create e then [e] else [])"
  by (simp add: persist_calls_def emit_def)

lemma calls_answer_message [simp]:
  "persist_calls (snd (answer_message chat p w)) = persist_calls w"
  by (simp add: persist_calls_def answer_message_def)

lemma calls_update_data [simp]: "persist_calls (update_data uid f w) = persist_calls w"
  by (simp add: persist_calls_def update_data_def)

lemma calls_set_state [simp]: "persist_calls (set_state uid st w) = persist_calls w"
  by (simp add: persist_calls_def set_state_def)

lemma calls_clear_state [simp]: "persist_calls (clear_state uid w) = persist_calls w"
  by (simp add: persist_calls_def clear_state_def)

lemma calls_db_update [simp]: "persist_calls (w\<lparr>db := s\<rparr>) = persist_calls w"
  by (simp add: persist_calls_def)

lemma calls_buffer_update [simp]: "persist_calls (w\<lparr>ALBUM_BUFFER := b\<rparr>) = persist_calls w"
  by (simp add: persist_calls_def)

lemma calls_cancel_task [simp]: "persist_calls (cancel_task t w) = persist_calls w"
  by (simp add: persist_calls_def cancel_task_def split: option.splits)

lemma calls_update_photo_progress [simp]:
  "persist_calls (update_photo_progress chat st c l w) = persist_calls w"
proof -
  have "persist_calls (update_data st f (snd (answer_message chat p w'))) = persist_calls w'"
    for f p w' by simp
  then show ?thesis
    by (simp add: update_photo_progress_def Let_def split_beta split: option.splits)
qed

lemma calls_clear_photo_progress [simp]:
  "persist_calls (clear_photo_progress chat st w) = persist_calls w"
  by (simp add: clear_photo_progress_def Let_def split: option.splits)

lemma calls_store_photo [simp]:
  "persist_calls (snd (snd (store_photo_from_file_id E chat st fid photos fuid w))) = persist_calls w"
  by (simp add: store_photo_from_file_id_def Let_def split: option.splits)

lemma calls_store_accepted [simp]:
  "persist_calls (snd (snd (store_accepted E chat st fs photos saved w))) = persist_calls w"
proof (induction fs arbitrary: photos saved w)
  case Nil
  then show ?case by simp
next
  case (Cons f fs)
  show ?case
  proof (cases "fe_file_id f = []")
    case True
    then show ?thesis using Cons.IH by simp
  next
    case False
    obtain ok photos' w' where
      st: "store_photo_from_file_id E chat st (fe_file_id f) photos (fe_file_unique_id f) w = (ok, photos', w')"
      by (cases "store_photo_from_file_id E chat st (fe_file_id f) photos (fe_file_unique_id f) w")
    have "persist_calls w' = persist_calls w"
      using calls_store_photo [of E chat st "fe_file_id f" photos "fe_file_unique_id f" w] st by simp
    then show ?thesis using False st Cons.IH by simp
  qed
qed

lemma calls_process_album_entry [simp]:
  "persist_calls (process_album_entry E entry w) = persist_calls w"
proof -
  have *: "persist_calls w1 = persist_calls w"
    if "store_accepted E chat st fs photos False w = (saved, photos', w1)"
    for chat st fs photos saved photos' w1
    using calls_store_accepted [of E chat st fs photos False w] that by simp
  show ?thesis
    unfolding process_album_entry_def Let_def
    by (auto split: prod.splits dest: *)
qed

lemma calls_flush_key [simp]: "persist_calls (flush_key E st process key w) = persist_calls w"
  by (simp add: flush_key_def Let_def split: option.splits)

lemma calls_fold_flush_key [simp]:
  "persist_calls (fold (flush_key E st process) keys w) = persist_calls w"
  by (induction keys arbitrary: w) simp_all

lemma calls_flush_user_albums [simp]:
  "persist_calls (flush_user_albums E uid st process w) = persist_calls w"
  by (simp add: flush_user_albums_def split: option.splits)

lemma calls_persist_draft:
  "persist_calls (snd (persist_draft E uid td infs photos w)) =
     persist_calls w @ [CreateTasting td infs photos]"
proof -
  obtain r s' n where c: "create_tasting E (db (emit (CreateTasting td infs photos) w)) td infs photos = (r, s', n)"
    by (cases "create_tasting E (db (emit (CreateTasting td infs photos) w)) td infs photos")
  show ?thesis using c by (cases r) (simp_all add: persist_draft_def Let_def)
qed

lemma calls_finalize_after_photos:
  "length (persist_calls (snd (finalize_after_photos E uid w))) = Suc (length (persist_calls w))"
  by (simp add: finalize_after_photos_def finalize_save_def finalize_quick_save_def
      Let_def calls_persist_draft)

lemma calls_and_then:
  "(\<And>w'. persist_calls (f w') = persist_calls w') \<Longrightarrow>
     persist_calls (snd (and_then r f)) = persist_calls (snd r)"
  by (cases r) (auto simp: and_then_def split: option.splits)

text \<open>
  C4. At the photo step a "done" with no photo and a "skip" with at least one photo only
  answer the callback with a notice: the state, the draft, the store and the album buffer
  stay as they are. "Done" calls the persistence gateway exactly when there is at least one
  photo, "skip" exactly when there is none.
\<close>

theorem photo_step_done_and_skip:
  assumes "get_state w uid = Some PhotoFlow_photos"
  shows
    "(photos_of (get_data w uid) = [] \<longrightarrow>
        photos_done E uid w = (None, w\<lparr>log := log w @ [CallAnswer uid NeedPhotoOrSkip]\<rparr>))
     \<and> (photos_of (get_data w uid) \<noteq> [] \<longrightarrow>
        photos_skip E uid w = (None, w\<lparr>log := log w @ [CallAnswer uid PhotosPresent]\<rparr>))
     \<and> length (persist_calls (snd (photos_done E uid w))) =
         length (persist_calls w) + (if photos_of (get_data w uid) = [] then 0 else 1)
     \<and> length (persist_calls (snd (photos_skip E uid w))) =
         length (persist_calls w) + (if photos_of (get_data w uid) = [] then 1 else 0)"
proof (intro conjI impI)
  assume "photos_of (get_data w uid) = []"
  then show "photos_done E uid w = (None, w\<lparr>log := log w @ [CallAnswer uid NeedPhotoOrSkip]\<rparr>)"
    using assms by (simp add: photos_done_def emit_def)
next
  assume "photos_of (get_data w uid) \<noteq> []"
  then show "photos_skip E uid w = (None, w\<lparr>log := log w @ [CallAnswer uid PhotosPresent]\<rparr>)"
    by (simp add: photos_skip_def emit_def)
next
  show "length (persist_calls (snd (photos_done E uid w))) =
         length (persist_calls w) + (if photos_of (get_data w uid) = [] then 0 else 1)"
    using assms
    by (simp add: photos_done_def calls_and_then calls_finalize_after_photos)
next
  show "length (persist_calls (snd (photos_skip E uid w))) =
         length (persist_calls w) + (if photos_of (get_data w uid) = [] then 1 else 0)"
    by (simp add: photos_skip_def calls_and_then calls_finalize_after_photos)
qed

lemmas eval_world = get_state_def get_data_def photos_of_def photo_step_world_def
  photo_step_data_def blank_world_def empty_data_def sample_photo_def

theorem photo_step_done_and_skip_witness:
  "get_state (photo_step_world []) 7 = Some PhotoFlow_photos
   \<and> photos_of (get_data (photo_step_world []) 7) = []
   \<and> photos_done quiet_env 7 (photo_step_world []) =
       (None, (photo_step_world [])\<lparr>log := [CallAnswer 7 NeedPhotoOrSkip]\<rparr>)
   \<and> get_state (photo_step_world [sample_photo ''a'']) 7 = Some PhotoFlow_photos
   \<and> photos_of (get_data (photo_step_world [sample_photo ''a'']) 7) \<noteq> []
   \<and> photos_skip quiet_env 7 (photo_step_world [sample_photo ''a'']) =
       (None, (photo_step_world [sample_photo ''a''])\<lparr>log := [CallAnswer 7 PhotosPresent]\<rparr>)
   \<and> length (persist_calls (snd (photos_done quiet_env 7 (photo_step_world [sample_photo ''a''])))) = 1
   \<and> length (persist_calls (snd (photos_skip quiet_env 7 (photo_step_world [])))) = 1"
proof -
  have s0: "get_state (photo_step_world []) 7 = Some PhotoFlow_photos"
    and p0: "photos_of (get_data (photo_step_world []) 7) = []"
    and l0: "log (photo_step_world []) = []"
    and c0: "persist_calls (photo_step_world []) = []"
    by (simp_all add: eval_world persist_calls_def)
  have s1: "get_state (photo_step_world [sample_photo ''a'']) 7 = Some PhotoFlow_photos"
    and p1: "photos_of (get_data (photo_step_world [sample_photo ''a'']) 7) \<noteq> []"
    and l1: "log (photo_step_world [sample_photo ''a'']) = []"
    and c1: "persist_calls (photo_step_world [sample_photo ''a'']) = []"
    by (simp_all add: eval_world persist_calls_def)
  note A = photo_step_done_and_skip [OF s0, of quiet_env]
  note B = photo_step_done_and_skip [OF s1, of quiet_env]
  show ?thesis using A B s0 p0 l0 c0 s1 p1 l1 c1 by simp
qed

subsection \<open>The decimal validator\<close>

text \<open>
  C10. The decimal validator rounds half-up before it checks the range: \<^verbatim>\<open>50.04\<close> parses
  to a value strictly above the maximum 50.0, and \<^verbatim>\<open>0,05\<close> to a value strictly below the
  minimum 0.1, yet \<^verbatim>\<open>parse_float\<close> at precision 1 returns the rounded values 50.0 and 0.1
  for them instead of failing.
\<close>

theorem parse_float_rounds_before_range_check:
  "Decimal ''50.04'' = Some (Finite 5004 (-2))
   \<and> dec_less (Finite 500 (-1)) (Finite 5004 (-2))
   \<and> parse_float ''50.04'' (Finite 1 (-1)) (Finite 500 (-1)) msg 1 = Inr (Finite 500 (-1))
   \<and> Decimal ''0.05'' = Some (Finite 5 (-2))
   \<and> dec_less (Finite 5 (-2)) (Finite 1 (-1))
   \<and> parse_float '' 0,05 '' (Finite 1 (-1)) (Finite 500 (-1)) msg 1 = Inr (Finite 1 (-1))"
  by (simp add: parse_float_def Decimal_def parse_sign_def strip_def is_space_def
      replace_char_def is_digit_def digits_val_def digit_val_def lower_ascii_def
      is_nan_text_def parse_exponent_def quant_exponent_def round_half_up_def
      scaled_def context_prec_def)

end
